theory Spec2Isabelle
  imports Main
begin

section \<open>Client side: the provider and its accessor (AuthProvider.tsx)\<close>

text \<open>
  A JavaScript \<^verbatim>\<open>Error\<close> is its message. A thrown error is the \<open>Inl\<close> branch of a sum.
\<close>

datatype error = Error string

text \<open>
  \<^verbatim>\<open>process.env\<close>: a variable that is not set reads as \<^verbatim>\<open>undefined\<close>, here \<open>None\<close>.
  The non-null assertion \<^verbatim>\<open>!\<close> of the source exists for the type checker only; at
  run time the value read, \<^verbatim>\<open>undefined\<close> included, is what the constructor receives.
\<close>

record process_env =
  NEXT_PUBLIC_SUPABASE_URL :: "string option"
  NEXT_PUBLIC_SUPABASE_ANON_KEY :: "string option"

text \<open>
  An authentication client: the arguments it was constructed with, its flavour,
  and the number of the constructor call that returned it. \<open>made\<close> below is the
  list of the clients that constructor calls have returned so far, oldest first,
  so its length counts the constructions.
\<close>

datatype flavour = Browser | Server

record client =
  client_id :: nat
  client_flavour :: flavour
  supabaseUrl :: "string option"
  supabaseKey :: "string option"

text \<open>
  The constructors \<^verbatim>\<open>createBrowserClient\<close> and \<^verbatim>\<open>createServerClient\<close> belong to the
  vendor package, not to this repository. Which arguments they refuse is the
  parameter \<open>chk\<close>: \<open>chk url key = Some e\<close> when the constructor throws \<open>e\<close> on these
  arguments. Otherwise a new client is built and recorded.
\<close>

type_synonym sdk_check = "string option \<Rightarrow> string option \<Rightarrow> error option"

definition construct ::
  "flavour \<Rightarrow> sdk_check \<Rightarrow> string option \<Rightarrow> string option \<Rightarrow> client list
    \<Rightarrow> error + client \<times> client list" where
  "construct fl chk url key made =
     (case chk url key of
        Some e \<Rightarrow> Inl e
      | None \<Rightarrow>
          (let c = \<lparr>client_id = length made, client_flavour = fl,
                    supabaseUrl = url, supabaseKey = key\<rparr>
           in Inr (c, made @ [c])))"

definition createBrowserClient ::
  "sdk_check \<Rightarrow> string option \<Rightarrow> string option \<Rightarrow> client list
    \<Rightarrow> error + client \<times> client list" where
  "createBrowserClient = construct Browser"

definition createServerClient ::
  "sdk_check \<Rightarrow> string option \<Rightarrow> string option \<Rightarrow> client list
    \<Rightarrow> error + client \<times> client list" where
  "createServerClient = construct Server"

text \<open>
  \<^verbatim>\<open>useState(init)\<close> with a lazy initialiser. The slot of the hook is \<open>None\<close> before
  the first render of the component instance; the first render runs \<open>init\<close> and
  stores its result, every later render returns the stored value and leaves
  \<open>init\<close> alone. An initialiser that throws leaves the slot empty.
\<close>

definition useState_lazy ::
  "'a option \<Rightarrow> ('w \<Rightarrow> error + 'a \<times> 'w) \<Rightarrow> 'w \<Rightarrow> error + 'a \<times> 'a option \<times> 'w" where
  "useState_lazy slot init w =
     (case slot of
        Some v \<Rightarrow> Inr (v, Some v, w)
      | None \<Rightarrow>
          (case init w of
             Inl e \<Rightarrow> Inl e
           | Inr (v, w') \<Rightarrow> Inr (v, Some v, w')))"

text \<open>The value published through the context: \<^verbatim>\<open>type SupabaseContext = { supabase }\<close>.\<close>

record SupabaseContext =
  supabase :: client

text \<open>
  One render of \<^verbatim>\<open>AuthProvider\<close>: the state slot after the render, the clients
  constructed so far, and the \<^verbatim>\<open>value\<close> handed to \<^verbatim>\<open>Context.Provider\<close>.
\<close>

record rendered =
  hook_slot :: "client option"
  constructed :: "client list"
  provided :: SupabaseContext

definition AuthProvider ::
  "sdk_check \<Rightarrow> process_env \<Rightarrow> client option \<Rightarrow> client list \<Rightarrow> error + rendered" where
  "AuthProvider chk env slot made =
     (case useState_lazy slot
             (createBrowserClient chk (NEXT_PUBLIC_SUPABASE_URL env)
                (NEXT_PUBLIC_SUPABASE_ANON_KEY env)) made of
        Inl e \<Rightarrow> Inl e
      | Inr (c, slot', made') \<Rightarrow>
          Inr \<lparr>hook_slot = slot', constructed = made', provided = \<lparr>supabase = c\<rparr>\<rparr>)"

text \<open>
  The lifetime of one provider instance after its first render: one re-render per
  element of \<open>envs\<close>, each with the environment of that moment.
\<close>

fun rerender :: "sdk_check \<Rightarrow> process_env list \<Rightarrow> rendered \<Rightarrow> error + rendered" where
  "rerender chk [] r = Inr r"
| "rerender chk (env # envs) r =
     (case AuthProvider chk env (hook_slot r) (constructed r) of
        Inl e \<Rightarrow> Inl e
      | Inr r' \<Rightarrow> rerender chk envs r')"

text \<open>
  \<^verbatim>\<open>const Context = createContext<SupabaseContext | undefined>(undefined)\<close> is private
  to the module, so the only elements that provide it are \<^verbatim>\<open>AuthProvider\<close> instances.
  The position of a component is the list of its ancestors, root first.
  \<^verbatim>\<open>useContext(Context)\<close> is the value of the nearest providing ancestor, and the
  default \<^verbatim>\<open>undefined\<close> when there is none.
\<close>

datatype ancestor = AuthProviderEl SupabaseContext | OtherEl

fun is_provider :: "ancestor \<Rightarrow> bool" where
  "is_provider (AuthProviderEl v) = True"
| "is_provider OtherEl = False"

fun useContext :: "ancestor list \<Rightarrow> SupabaseContext option" where
  "useContext [] = None"
| "useContext (AuthProviderEl v # below) =
     (case useContext below of None \<Rightarrow> Some v | Some w \<Rightarrow> Some w)"
| "useContext (OtherEl # below) = useContext below"

definition useSupabaseClient :: "SupabaseContext option \<Rightarrow> error + client" where
  "useSupabaseClient context =
     (case context of
        None \<Rightarrow> Inl (Error ''useSupabaseClient must be used within AuthProvider'')
      | Some c \<Rightarrow> Inr (supabase c))"

text \<open>\<^verbatim>\<open>useSupabase\<close> forwards to the accessor.\<close>

definition useSupabase :: "SupabaseContext option \<Rightarrow> error + client" where
  "useSupabase context = useSupabaseClient context"

section \<open>The session state mirror (useSessionContext)\<close>

text \<open>
  The hook keeps two \<^verbatim>\<open>useState\<close> cells, \<open>session\<close> (initially \<^verbatim>\<open>null\<close>) and
  \<open>isLoading\<close> (initially \<^verbatim>\<open>true\<close>), and the client it read from the context. What
  the effect started is kept beside them: whether the promise of \<^verbatim>\<open>getSession()\<close> is
  still to settle, how often \<^verbatim>\<open>getSession()\<close> was called, whether the callback given
  to \<^verbatim>\<open>onAuthStateChange\<close> is still registered, and the rejections that no handler
  took (the runtime reports those; no code of the hook sees them).
  A session is opaque: the type variable \<open>'s\<close>.
\<close>

record 's mirror =
  session :: "'s option"
  isLoading :: bool
  supabaseClient :: client
  fetch_pending :: bool
  getSession_calls :: nat
  subscribed :: bool
  unhandled :: "error list"

text \<open>
  What the promise of \<^verbatim>\<open>getSession()\<close> fulfils with: the vendor's envelope
  \<^verbatim>\<open>{ data: { session }, error }\<close>. The callback of the hook destructures
  \<^verbatim>\<open>data.session\<close> and nothing else.
\<close>

record 's getSession_result =
  data_session :: "'s option"
  auth_error :: "error option"

text \<open>What the hook returns to the component that calls it.\<close>

record 's hook_return =
  ret_session :: "'s option"
  ret_isLoading :: bool
  ret_supabaseClient :: client

text \<open>
  The first render: the accessor (which may throw), then the two initial
  \<^verbatim>\<open>useState\<close> values. No effect has run yet.
\<close>

definition first_render :: "SupabaseContext option \<Rightarrow> error + 's mirror" where
  "first_render context =
     (case useSupabaseClient context of
        Inl e \<Rightarrow> Inl e
      | Inr c \<Rightarrow>
          Inr \<lparr>session = None, isLoading = True, supabaseClient = c,
               fetch_pending = False, getSession_calls = 0, subscribed = False,
               unhandled = []\<rparr>)"

text \<open>
  The body of the effect, run once after the first render: it calls
  \<^verbatim>\<open>getSession()\<close> and registers the change callback. Its dependency list holds the
  client alone, and the provider publishes the same client at every render, so
  the effect does not run a second time while the component is mounted.
\<close>

definition effect :: "'s mirror \<Rightarrow> 's mirror" where
  "effect st =
     st\<lparr>fetch_pending := True, getSession_calls := Suc (getSession_calls st),
        subscribed := True\<rparr>"

text \<open>
  The two callbacks of the source.
  \<^verbatim>\<open>({ data: { session } }) => { setSession(session); setIsLoading(false) }\<close> and
  \<^verbatim>\<open>(_event, session) => { setSession(session) }\<close>.
\<close>

definition getSession_then :: "'s getSession_result \<Rightarrow> 's mirror \<Rightarrow> 's mirror" where
  "getSession_then r st = st\<lparr>session := data_session r, isLoading := False\<rparr>"

definition onAuthStateChange_callback :: "string \<Rightarrow> 's option \<Rightarrow> 's mirror \<Rightarrow> 's mirror" where
  "onAuthStateChange_callback ev s st = st\<lparr>session := s\<rparr>"

text \<open>
  What can happen to a mounted hook. A promise settles once, so a settlement that
  finds no pending promise changes nothing; the client calls the change callback
  only while it is registered; the cleanup of the effect is
  \<^verbatim>\<open>subscription.unsubscribe()\<close>. A rejection meets no handler: \<^verbatim>\<open>.then\<close> was
  given a fulfilment callback only, and the promise it returns is dropped.
\<close>

datatype 's event =
    Fulfilled "'s getSession_result"
  | Rejected error
  | AuthStateChange string "'s option"
  | Teardown

fun step :: "'s mirror \<Rightarrow> 's event \<Rightarrow> 's mirror" where
  "step st (Fulfilled r) =
     (if fetch_pending st then getSession_then r (st\<lparr>fetch_pending := False\<rparr>) else st)"
| "step st (Rejected e) =
     (if fetch_pending st
      then st\<lparr>fetch_pending := False, unhandled := unhandled st @ [e]\<rparr>
      else st)"
| "step st (AuthStateChange ev s) =
     (if subscribed st then onAuthStateChange_callback ev s st else st)"
| "step st Teardown = st\<lparr>subscribed := False\<rparr>"

fun run :: "'s mirror \<Rightarrow> 's event list \<Rightarrow> 's mirror" where
  "run st [] = st"
| "run st (ev # evs) = run (step st ev) evs"

text \<open>A later render of the hook: the accessor again, then the current cells.\<close>

definition useSessionContext ::
  "SupabaseContext option \<Rightarrow> 's mirror \<Rightarrow> error + 's hook_return" where
  "useSessionContext context st =
     (case useSupabaseClient context of
        Inl e \<Rightarrow> Inl e
      | Inr c \<Rightarrow>
          Inr \<lparr>ret_session = session st, ret_isLoading = isLoading st,
               ret_supabaseClient = c\<rparr>)"

text \<open>
  Counting what \<open>isLoading\<close> does along a run: the steps that take it from true
  to false, and the steps that take it from false to true.
\<close>

fun falls :: "'s mirror \<Rightarrow> 's event list \<Rightarrow> nat" where
  "falls st [] = 0"
| "falls st (ev # evs) =
     (if isLoading st \<and> \<not> isLoading (step st ev) then 1 else 0) + falls (step st ev) evs"

fun rises :: "'s mirror \<Rightarrow> 's event list \<Rightarrow> nat" where
  "rises st [] = 0"
| "rises st (ev # evs) =
     (if \<not> isLoading st \<and> isLoading (step st ev) then 1 else 0) + rises (step st ev) evs"

text \<open>
  Whether the promise of the initial fetch is fulfilled in a list of events: its
  first settlement, if there is one, decides.
\<close>

fun fulfilled :: "'s event list \<Rightarrow> bool" where
  "fulfilled [] = False"
| "fulfilled (Fulfilled r # evs) = True"
| "fulfilled (Rejected e # evs) = False"
| "fulfilled (ev # evs) = fulfilled evs"

text \<open>The change events that carry the given payloads, in order.\<close>

definition changes :: "(string \<times> 's option) list \<Rightarrow> 's event list" where
  "changes ps = map (\<lambda>(ev, s). AuthStateChange ev s) ps"

section \<open>Server side: the cookie bridge at its two call sites\<close>

text \<open>
  A cookie as \<^verbatim>\<open>setAll\<close> receives it, \<^verbatim>\<open>{ name, value, options }\<close>; the options are
  the attributes (path, domain, expiry, same-site policy, ...) by name.
\<close>

type_synonym options = "(string \<times> string) list"

record cookie =
  cookie_name :: string
  cookie_value :: string
  cookie_options :: options

text \<open>
  A cookie jar of the framework keeps one entry per name, in the order in which
  the names first came: \<^verbatim>\<open>set\<close> replaces the entry of a name that is there and
  appends one that is not.
\<close>

fun jar_set :: "string \<Rightarrow> 'v \<Rightarrow> (string \<times> 'v) list \<Rightarrow> (string \<times> 'v) list" where
  "jar_set n v [] = [(n, v)]"
| "jar_set n v ((m, w) # js) = (if m = n then (n, v) # js else (m, w) # jar_set n v js)"

text \<open>
  A call into the framework may throw. What the coming calls do is written down
  beforehand in \<open>faults\<close>, one entry per call: \<open>Some e\<close> when the call throws \<open>e\<close>,
  \<open>None\<close> when it works; calls beyond the end of the list work. Every call takes
  its entry off the list, so the list also tells how many calls were made.
  A function that may throw returns its result, or the error, together with the
  state it leaves behind.
\<close>

record world =
  faults :: "error option list"

definition framework_call :: "'a world_scheme \<Rightarrow> error option \<times> 'a world_scheme" where
  "framework_call w =
     (case faults w of
        [] \<Rightarrow> (None, w)
      | f # fs \<Rightarrow> (f, w\<lparr>faults := fs\<rparr>))"

text \<open>\<^verbatim>\<open>xs.forEach(f)\<close>: in order, and an \<open>f\<close> that throws ends the iteration.\<close>

fun forEach :: "('a \<Rightarrow> 's \<Rightarrow> (error + unit) \<times> 's) \<Rightarrow> 'a list \<Rightarrow> 's \<Rightarrow> (error + unit) \<times> 's" where
  "forEach f [] st = (Inr (), st)"
| "forEach f (x # xs) st =
     (case f x st of
        (Inl e, st') \<Rightarrow> (Inl e, st')
      | (Inr u, st') \<Rightarrow> forEach f xs st')"

subsection \<open>The edge middleware\<close>

text \<open>
  What the callbacks of the middleware close over: the cookies of \<^verbatim>\<open>req\<close> (which
  back the cookie header of \<^verbatim>\<open>req.headers\<close>), and the variable \<^verbatim>\<open>res\<close>: the cookies set
  on that response, and the cookies of the request headers it forwards to the
  next layer.
\<close>

record middleware = world +
  req_cookies :: "(string \<times> string) list"
  res_cookies :: "(string \<times> string \<times> options) list"
  res_request_cookies :: "(string \<times> string) list"

definition req_cookies_getAll ::
  "middleware \<Rightarrow> (error + (string \<times> string) list) \<times> middleware" where
  "req_cookies_getAll st =
     (case framework_call st of
        (Some e, st') \<Rightarrow> (Inl e, st')
      | (None, st') \<Rightarrow> (Inr (req_cookies st'), st'))"

definition req_cookies_set :: "string \<Rightarrow> string \<Rightarrow> middleware \<Rightarrow> (error + unit) \<times> middleware" where
  "req_cookies_set n v st =
     (case framework_call st of
        (Some e, st') \<Rightarrow> (Inl e, st')
      | (None, st') \<Rightarrow> (Inr (), st'\<lparr>req_cookies := jar_set n v (req_cookies st')\<rparr>))"

text \<open>
  \<^verbatim>\<open>res = NextResponse.next({ request: { headers: req.headers } })\<close>: a new response,
  with no cookie set on it, that forwards the request headers as they are now.
\<close>

definition NextResponse_next :: "middleware \<Rightarrow> (error + unit) \<times> middleware" where
  "NextResponse_next st =
     (case framework_call st of
        (Some e, st') \<Rightarrow> (Inl e, st')
      | (None, st') \<Rightarrow>
          (Inr (), st'\<lparr>res_cookies := [], res_request_cookies := req_cookies st'\<rparr>))"

definition res_cookies_set ::
  "string \<Rightarrow> string \<Rightarrow> options \<Rightarrow> middleware \<Rightarrow> (error + unit) \<times> middleware" where
  "res_cookies_set n v opts st =
     (case framework_call st of
        (Some e, st') \<Rightarrow> (Inl e, st')
      | (None, st') \<Rightarrow> (Inr (), st'\<lparr>res_cookies := jar_set n (v, opts) (res_cookies st')\<rparr>))"

definition middleware_getAll ::
  "middleware \<Rightarrow> (error + (string \<times> string) list) \<times> middleware" where
  "middleware_getAll st = req_cookies_getAll st"

definition middleware_setAll :: "cookie list \<Rightarrow> middleware \<Rightarrow> (error + unit) \<times> middleware" where
  "middleware_setAll cookiesToSet st =
     (case forEach (\<lambda>c. req_cookies_set (cookie_name c) (cookie_value c)) cookiesToSet st of
        (Inl e, st1) \<Rightarrow> (Inl e, st1)
      | (Inr u, st1) \<Rightarrow>
          (case NextResponse_next st1 of
             (Inl e, st2) \<Rightarrow> (Inl e, st2)
           | (Inr u, st2) \<Rightarrow>
               forEach (\<lambda>c. res_cookies_set (cookie_name c) (cookie_value c) (cookie_options c))
                 cookiesToSet st2))"

text \<open>
  \<^verbatim>\<open>const supabase = createServerClient(url!, key!, { cookies: { getAll, setAll } })\<close>:
  one call of the constructor in one run of the middleware, that is, for one
  request. The callbacks it is given are the two functions above.
\<close>

definition middleware_supabase ::
  "sdk_check \<Rightarrow> process_env \<Rightarrow> client list \<Rightarrow> error + client \<times> client list" where
  "middleware_supabase chk env made =
     createServerClient chk (NEXT_PUBLIC_SUPABASE_URL env) (NEXT_PUBLIC_SUPABASE_ANON_KEY env) made"

subsection \<open>The tRPC request context\<close>

text \<open>
  \<^verbatim>\<open>cookiesStore\<close> is the cookie store the framework gives the request handler:
  \<^verbatim>\<open>getAll()\<close> reads its cookies by name and value, \<^verbatim>\<open>set(name, value, options)\<close>
  changes what later reads see and puts the cookie on the outgoing response.
\<close>

record trpc = world +
  store_cookies :: "(string \<times> string) list"
  store_response_cookies :: "(string \<times> string \<times> options) list"

definition cookiesStore_getAll :: "trpc \<Rightarrow> (error + (string \<times> string) list) \<times> trpc" where
  "cookiesStore_getAll st =
     (case framework_call st of
        (Some e, st') \<Rightarrow> (Inl e, st')
      | (None, st') \<Rightarrow> (Inr (store_cookies st'), st'))"

definition cookiesStore_set ::
  "string \<Rightarrow> string \<Rightarrow> options \<Rightarrow> trpc \<Rightarrow> (error + unit) \<times> trpc" where
  "cookiesStore_set n v opts st =
     (case framework_call st of
        (Some e, st') \<Rightarrow> (Inl e, st')
      | (None, st') \<Rightarrow>
          (Inr (), st'\<lparr>store_cookies := jar_set n v (store_cookies st'),
                       store_response_cookies := jar_set n (v, opts) (store_response_cookies st')\<rparr>))"

definition trpc_getAll :: "trpc \<Rightarrow> (error + (string \<times> string) list) \<times> trpc" where
  "trpc_getAll st = cookiesStore_getAll st"

definition trpc_setAll :: "cookie list \<Rightarrow> trpc \<Rightarrow> (error + unit) \<times> trpc" where
  "trpc_setAll cookiesToSet st =
     forEach (\<lambda>c. cookiesStore_set (cookie_name c) (cookie_value c) (cookie_options c))
       cookiesToSet st"

text \<open>
  \<^verbatim>\<open>let supabase = createServerClient(url!, key!, { cookies: { getAll, setAll } })\<close>:
  one call of the constructor in one construction of the request context.
\<close>

definition trpc_supabase ::
  "sdk_check \<Rightarrow> process_env \<Rightarrow> client list \<Rightarrow> error + client \<times> client list" where
  "trpc_supabase chk env made =
     createServerClient chk (NEXT_PUBLIC_SUPABASE_URL env) (NEXT_PUBLIC_SUPABASE_ANON_KEY env) made"

subsection \<open>Requests, and the client calling the bridge\<close>

text \<open>
  The state of either call site when a request with the cookies \<open>ck\<close> arrives, in a
  world whose framework calls do what \<open>fs\<close> says: no cookie is set on a response
  yet, and the response the middleware starts with forwards the request as it
  came.
\<close>

definition middleware_start :: "(string \<times> string) list \<Rightarrow> error option list \<Rightarrow> middleware" where
  "middleware_start ck fs =
     \<lparr>faults = fs, req_cookies = ck, res_cookies = [], res_request_cookies = ck\<rparr>"

definition trpc_start :: "(string \<times> string) list \<Rightarrow> error option list \<Rightarrow> trpc" where
  "trpc_start ck fs = \<lparr>faults = fs, store_cookies = ck, store_response_cookies = []\<rparr>"

text \<open>
  The client calls the two callbacks as it sees fit. A sequence of such calls is
  run against a pair of callbacks; the reads are collected, and a callback that
  throws ends the sequence with its error.
\<close>

datatype bridge_call = GetAll | SetAll "cookie list"

fun bridge_calls ::
  "('s \<Rightarrow> (error + (string \<times> string) list) \<times> 's) \<Rightarrow> (cookie list \<Rightarrow> 's \<Rightarrow> (error + unit) \<times> 's)
    \<Rightarrow> bridge_call list \<Rightarrow> 's \<Rightarrow> (error + (string \<times> string) list list) \<times> 's" where
  "bridge_calls getAll setAll [] st = (Inr [], st)"
| "bridge_calls getAll setAll (GetAll # cs) st =
     (case getAll st of
        (Inl e, st') \<Rightarrow> (Inl e, st')
      | (Inr r, st') \<Rightarrow>
          (case bridge_calls getAll setAll cs st' of
             (Inl e, st'') \<Rightarrow> (Inl e, st'')
           | (Inr rs, st'') \<Rightarrow> (Inr (r # rs), st'')))"
| "bridge_calls getAll setAll (SetAll l # cs) st =
     (case setAll l st of
        (Inl e, st') \<Rightarrow> (Inl e, st')
      | (Inr u, st') \<Rightarrow> bridge_calls getAll setAll cs st')"

text \<open>
  The jars that setting a list of cookies one after the other leaves: on a
  response (name, value and options) and on a request (name and value).
\<close>

fun set_triples :: "cookie list \<Rightarrow> (string \<times> string \<times> options) list \<Rightarrow> (string \<times> string \<times> options) list" where
  "set_triples [] j = j"
| "set_triples (c # cs) j =
     set_triples cs (jar_set (cookie_name c) (cookie_value c, cookie_options c) j)"

fun set_pairs :: "cookie list \<Rightarrow> (string \<times> string) list \<Rightarrow> (string \<times> string) list" where
  "set_pairs [] j = j"
| "set_pairs (c # cs) j = set_pairs cs (jar_set (cookie_name c) (cookie_value c) j)"

text \<open>
  Of a sequence of calls: the list of its last \<^verbatim>\<open>setAll\<close> (\<open>l\<close> when it has none),
  the lists of all its \<^verbatim>\<open>setAll\<close> calls one after the other, and the number of its
  \<^verbatim>\<open>setAll\<close> calls.
\<close>

fun last_setAll :: "cookie list \<Rightarrow> bridge_call list \<Rightarrow> cookie list" where
  "last_setAll l [] = l"
| "last_setAll l (GetAll # cs) = last_setAll l cs"
| "last_setAll l (SetAll l' # cs) = last_setAll l' cs"

fun all_setAll :: "bridge_call list \<Rightarrow> cookie list" where
  "all_setAll [] = []"
| "all_setAll (GetAll # cs) = all_setAll cs"
| "all_setAll (SetAll l # cs) = l @ all_setAll cs"

fun count_setAll :: "bridge_call list \<Rightarrow> nat" where
  "count_setAll [] = 0"
| "count_setAll (GetAll # cs) = count_setAll cs"
| "count_setAll (SetAll l # cs) = Suc (count_setAll cs)"

subsection \<open>Values for the examples\<close>

abbreviation env0 :: process_env where
  "env0 \<equiv> \<lparr>NEXT_PUBLIC_SUPABASE_URL = Some ''u'', NEXT_PUBLIC_SUPABASE_ANON_KEY = Some ''k''\<rparr>"

abbreviation client0 :: client where
  "client0 \<equiv> \<lparr>client_id = 0, client_flavour = Browser,
     supabaseUrl = Some ''u'', supabaseKey = Some ''k''\<rparr>"

abbreviation client1 :: client where
  "client1 \<equiv> \<lparr>client_id = 1, client_flavour = Browser,
     supabaseUrl = Some ''u'', supabaseKey = Some ''k''\<rparr>"

abbreviation server_client0 :: client where
  "server_client0 \<equiv> \<lparr>client_id = 0, client_flavour = Server,
     supabaseUrl = Some ''u'', supabaseKey = Some ''k''\<rparr>"

abbreviation rendered0 :: rendered where
  "rendered0 \<equiv> \<lparr>hook_slot = Some client0, constructed = [client0],
     provided = \<lparr>supabase = client0\<rparr>\<rparr>"

abbreviation mirror0 :: "nat mirror" where
  "mirror0 \<equiv> \<lparr>session = None, isLoading = True, supabaseClient = client0,
     fetch_pending = False, getSession_calls = 0, subscribed = False, unhandled = []\<rparr>"

abbreviation cookie_c :: cookie where
  "cookie_c \<equiv> \<lparr>cookie_name = ''c'', cookie_value = ''3'', cookie_options = [(''path'', ''/'')]\<rparr>"

section \<open>Properties of the provider and the accessor\<close>

lemma useContext_None: "(useContext anc = None) = (\<not> list_ex is_provider anc)"
  by (induction anc rule: useContext.induct) (auto split: option.splits)

lemma useContext_nearest:
  "\<not> list_ex is_provider inner \<Longrightarrow> useContext (outer @ AuthProviderEl v # inner) = Some v"
proof (induction outer)
  case Nil
  then have "useContext inner = None" by (simp add: useContext_None)
  then show ?case by simp
next
  case (Cons a outer)
  then show ?case by (cases a) simp_all
qed

text \<open>
  C1. The accessor throws exactly when the context value it reads is undefined,
  and what it throws is the error with the message
  \<^verbatim>\<open>useSupabaseClient must be used within AuthProvider\<close>; on a defined value it
  returns that value's client. For a component at a position in the tree, the
  value is undefined exactly when no ancestor is an \<^verbatim>\<open>AuthProvider\<close>, and under a
  provider the accessor returns the client of the nearest one.
\<close>

theorem accessor_throws_iff_outside_provider:
  "((\<exists>e. useSupabaseClient context = Inl e) \<longleftrightarrow> context = None)
   \<and> useSupabaseClient None = Inl (Error ''useSupabaseClient must be used within AuthProvider'')
   \<and> useSupabaseClient (Some v) = Inr (supabase v)
   \<and> ((\<exists>e. useSupabaseClient (useContext anc) = Inl e) \<longleftrightarrow> \<not> list_ex is_provider anc)
   \<and> (\<not> list_ex is_provider inner \<longrightarrow>
        useSupabaseClient (useContext (outer @ AuthProviderEl v # inner)) = Inr (supabase v))"
  by (auto simp: useSupabaseClient_def useContext_nearest useContext_None[symmetric]
      split: option.splits)

theorem accessor_throws_iff_outside_provider_witness:
  "\<not> list_ex is_provider [OtherEl]
   \<and> useSupabaseClient (useContext
        ([OtherEl, AuthProviderEl \<lparr>supabase = client0\<rparr>]
         @ AuthProviderEl \<lparr>supabase = client1\<rparr> # [OtherEl]))
     = Inr client1
   \<and> (\<exists>e. useSupabaseClient (useContext [OtherEl, OtherEl]) = Inl e)"
  using accessor_throws_iff_outside_provider
    [of None "\<lparr>supabase = client1\<rparr>" "[OtherEl, OtherEl]" "[OtherEl]"
        "[OtherEl, AuthProviderEl \<lparr>supabase = client0\<rparr>]"]
  by simp

lemma AuthProvider_slot:
  "AuthProvider chk env slot made = Inr r \<Longrightarrow> hook_slot r = Some (supabase (provided r))"
  by (auto simp: AuthProvider_def useState_lazy_def split: option.splits sum.splits)

lemma AuthProvider_rerender_same:
  "hook_slot r = Some (supabase (provided r)) \<Longrightarrow>
     AuthProvider chk env (hook_slot r) (constructed r) = Inr r"
  by (simp add: AuthProvider_def useState_lazy_def)

lemma rerender_same:
  "hook_slot r = Some (supabase (provided r)) \<Longrightarrow> rerender chk envs r = Inr r"
proof (induction envs)
  case Nil
  show ?case by simp
next
  case (Cons env envs)
  have "AuthProvider chk env (hook_slot r) (constructed r) = Inr r"
    using Cons.prems by (rule AuthProvider_rerender_same)
  with Cons show ?case by simp
qed

lemma AuthProvider_first:
  "AuthProvider chk env None made = Inr r \<Longrightarrow> constructed r = made @ [supabase (provided r)]"
  by (auto simp: AuthProvider_def useState_lazy_def createBrowserClient_def construct_def Let_def
      split: option.splits sum.splits)

lemma construct_one: "construct fl chk url key made = Inr (c, made') \<Longrightarrow> made' = made @ [c]"
  by (auto simp: construct_def Let_def split: option.splits)

text \<open>
  C2. A provider whose first render succeeds has constructed exactly one client,
  the one it publishes; every later render, whatever the environment then holds,
  returns the same state, the same published client and the same list of
  constructed clients, so the initialiser does not run again. On the server, one
  run of the construction at either call site (one request) adds exactly one
  client, the one it returns.
\<close>

theorem one_client_per_lifetime_and_request:
  "(AuthProvider chk env None made = Inr r \<longrightarrow>
      rerender chk envs r = Inr r
      \<and> constructed r = made @ [supabase (provided r)]
      \<and> hook_slot r = Some (supabase (provided r)))
   \<and> (middleware_supabase chk env made = Inr (c, made') \<longrightarrow> made' = made @ [c])
   \<and> (trpc_supabase chk env made = Inr (c, made') \<longrightarrow> made' = made @ [c])"
  using AuthProvider_first[of chk env made r] AuthProvider_slot[of chk env None made r]
    rerender_same[of r chk envs]
  by (auto simp: middleware_supabase_def trpc_supabase_def createServerClient_def
      dest: construct_one)

theorem one_client_per_lifetime_and_request_witness:
  "AuthProvider (\<lambda>url key. None) env0 None [] = Inr rendered0
   \<and> rerender (\<lambda>url key. None)
        [env0, \<lparr>NEXT_PUBLIC_SUPABASE_URL = Some ''other'', NEXT_PUBLIC_SUPABASE_ANON_KEY = None\<rparr>]
        rendered0
     = Inr rendered0
   \<and> middleware_supabase (\<lambda>url key. None) env0 [] = Inr (server_client0, [server_client0])
   \<and> trpc_supabase (\<lambda>url key. None) env0 [] = Inr (server_client0, [server_client0])"
  using one_client_per_lifetime_and_request
    [of "\<lambda>url key. None" env0 "[]" rendered0
        "[env0, \<lparr>NEXT_PUBLIC_SUPABASE_URL = Some ''other'', NEXT_PUBLIC_SUPABASE_ANON_KEY = None\<rparr>]"
        server_client0 "[server_client0]"]
  by (simp add: AuthProvider_def useState_lazy_def createBrowserClient_def createServerClient_def
      construct_def middleware_supabase_def trpc_supabase_def Let_def)



section \<open>Properties of the session state mirror\<close>

text \<open>
  C10. Under a provider that has rendered, the first render of the hook succeeds
  and returns \<open>session = null\<close>, \<open>isLoading = true\<close> and the client the provider
  publishes, which is the client in the provider's state; after the effect has
  run, and before anything it started has answered, a render returns the same.
\<close>

theorem hook_initial_return:
  assumes "AuthProvider chk env slot made = Inr r"
  shows "\<exists>st. first_render (Some (provided r)) = Inr st
           \<and> useSessionContext (Some (provided r)) st
               = Inr \<lparr>ret_session = None, ret_isLoading = True,
                      ret_supabaseClient = supabase (provided r)\<rparr>
           \<and> useSessionContext (Some (provided r)) (effect st)
               = Inr \<lparr>ret_session = None, ret_isLoading = True,
                      ret_supabaseClient = supabase (provided r)\<rparr>
           \<and> hook_slot r = Some (supabase (provided r))"
  using AuthProvider_slot[OF assms]
  by (simp add: first_render_def useSessionContext_def useSupabaseClient_def effect_def)

theorem hook_initial_return_witness:
  "\<exists>st :: nat mirror.
     first_render (Some \<lparr>supabase = client0\<rparr>) = Inr st
     \<and> useSessionContext (Some \<lparr>supabase = client0\<rparr>) (effect st)
         = Inr \<lparr>ret_session = None, ret_isLoading = True, ret_supabaseClient = client0\<rparr>"
  using hook_initial_return
    [where 'a = nat, of "\<lambda>url key. None" env0 None "[]" rendered0]
  by (auto simp add: AuthProvider_def useState_lazy_def createBrowserClient_def construct_def
      Let_def)

lemma step_isLoading_stays_false: "\<not> isLoading st \<Longrightarrow> \<not> isLoading (step st ev)"
  by (cases ev) (simp_all add: getSession_then_def onAuthStateChange_callback_def)

lemma rises_zero: "rises st evs = 0"
proof (induction evs arbitrary: st)
  case Nil
  show ?case by simp
next
  case (Cons ev evs)
  then show ?case using step_isLoading_stays_false[of st ev] by auto
qed

lemma step_settled:
  "\<not> fetch_pending st \<Longrightarrow>
     \<not> fetch_pending (step st ev) \<and> isLoading (step st ev) = isLoading st"
  by (cases ev) (simp_all add: onAuthStateChange_callback_def)

lemma falls_settled: "\<not> fetch_pending st \<Longrightarrow> falls st evs = 0"
proof (induction evs arbitrary: st)
  case Nil
  show ?case by simp
next
  case (Cons ev evs)
  then show ?case using step_settled[of st ev] by simp
qed

lemma run_settled: "\<not> fetch_pending st \<Longrightarrow> isLoading (run st evs) = isLoading st"
proof (induction evs arbitrary: st)
  case Nil
  show ?case by simp
next
  case (Cons ev evs)
  then show ?case using step_settled[of st ev] by simp
qed

lemma falls_pending:
  "fetch_pending st \<Longrightarrow> isLoading st \<Longrightarrow> falls st evs = (if fulfilled evs then 1 else 0)"
proof (induction evs arbitrary: st)
  case Nil
  show ?case by simp
next
  case (Cons ev evs)
  show ?case
  proof (cases ev)
    case (Fulfilled r)
    with Cons.prems show ?thesis
      by (simp add: getSession_then_def falls_settled)
  next
    case (Rejected e)
    with Cons.prems show ?thesis
      by (simp add: falls_settled)
  next
    case (AuthStateChange n s)
    with Cons show ?thesis
      by (simp add: onAuthStateChange_callback_def)
  next
    case Teardown
    with Cons show ?thesis by simp
  qed
qed

lemma run_pending:
  "fetch_pending st \<Longrightarrow> isLoading st \<Longrightarrow> isLoading (run st evs) = (\<not> fulfilled evs)"
proof (induction evs arbitrary: st)
  case Nil
  then show ?case by simp
next
  case (Cons ev evs)
  show ?case
  proof (cases ev)
    case (Fulfilled r)
    with Cons.prems show ?thesis
      by (simp add: getSession_then_def run_settled)
  next
    case (Rejected e)
    with Cons.prems show ?thesis
      by (simp add: run_settled)
  next
    case (AuthStateChange n s)
    with Cons show ?thesis
      by (simp add: onAuthStateChange_callback_def)
  next
    case Teardown
    with Cons show ?thesis by simp
  qed
qed

lemma step_getSession_calls: "getSession_calls (step st ev) = getSession_calls st"
  by (cases ev) (simp_all add: getSession_then_def onAuthStateChange_callback_def)

lemma run_getSession_calls: "getSession_calls (run st evs) = getSession_calls st"
  by (induction evs arbitrary: st) (simp_all add: step_getSession_calls)

text \<open>
  C3. For a hook that rendered and ran its effect: \<open>isLoading\<close> is true at the
  start; along every sequence of events it goes from true to false once when the
  promise of the one \<^verbatim>\<open>getSession()\<close> call is fulfilled, and not at all when it is
  not; it never goes from false to true; a change event leaves it as it is; and
  \<^verbatim>\<open>getSession()\<close> has been called once, whatever has happened since.
\<close>

theorem isLoading_falls_once:
  assumes "first_render context = Inr st"
  shows "isLoading st \<and> isLoading (effect st)
    \<and> falls (effect st) evs = (if fulfilled evs then 1 else 0)
    \<and> rises (effect st) evs = 0
    \<and> isLoading (run (effect st) evs) = (\<not> fulfilled evs)
    \<and> isLoading (step st' (AuthStateChange ev s)) = isLoading st'
    \<and> getSession_calls (run (effect st) evs) = 1"
proof -
  from assms have init: "isLoading st" "getSession_calls st = 0"
    by (auto simp: first_render_def split: sum.splits)
  then have eff: "isLoading (effect st)" "fetch_pending (effect st)"
    "getSession_calls (effect st) = 1"
    by (simp_all add: effect_def)
  have "isLoading (step st' (AuthStateChange ev s)) = isLoading st'"
    by (simp add: onAuthStateChange_callback_def)
  with init eff show ?thesis
    by (simp add: falls_pending rises_zero run_pending run_getSession_calls)
qed

theorem isLoading_falls_once_witness:
  "first_render (Some \<lparr>supabase = client0\<rparr>) = Inr mirror0
   \<and> falls (effect mirror0)
        [AuthStateChange ''SIGNED_IN'' (Some 1), Fulfilled \<lparr>data_session = Some 2, auth_error = None\<rparr>,
         AuthStateChange ''TOKEN_REFRESHED'' (Some 3), AuthStateChange ''SIGNED_OUT'' None] = 1
   \<and> rises (effect mirror0)
        [AuthStateChange ''SIGNED_IN'' (Some 1), Fulfilled \<lparr>data_session = Some 2, auth_error = None\<rparr>,
         AuthStateChange ''TOKEN_REFRESHED'' (Some 3), AuthStateChange ''SIGNED_OUT'' None] = 0
   \<and> \<not> isLoading (run (effect mirror0)
        [AuthStateChange ''SIGNED_IN'' (Some 1), Fulfilled \<lparr>data_session = Some 2, auth_error = None\<rparr>,
         AuthStateChange ''TOKEN_REFRESHED'' (Some 3), AuthStateChange ''SIGNED_OUT'' None])"
  using isLoading_falls_once
    [of "Some \<lparr>supabase = client0\<rparr>" mirror0
        "[AuthStateChange ''SIGNED_IN'' (Some 1), Fulfilled \<lparr>data_session = Some 2, auth_error = None\<rparr>,
         AuthStateChange ''TOKEN_REFRESHED'' (Some 3), AuthStateChange ''SIGNED_OUT'' None]"
        mirror0 "''SIGNED_IN''" "Some 1"]
  by (simp add: first_render_def useSupabaseClient_def
      del: falls.simps rises.simps run.simps step.simps)

lemma run_append: "run st (evs @ evs') = run (run st evs) evs'"
  by (induction evs arbitrary: st) simp_all

lemma changes_Nil: "changes [] = []"
  by (simp add: changes_def)

lemma changes_Cons: "changes ((ev, s) # ps) = AuthStateChange ev s # changes ps"
  by (simp add: changes_def)

lemma changes_append: "changes (ps @ qs) = changes ps @ changes qs"
  by (simp add: changes_def)

lemma run_changes_subscribed: "subscribed (run st (changes ps)) = subscribed st"
proof (induction ps arbitrary: st)
  case Nil
  show ?case by (simp add: changes_Nil)
next
  case (Cons p ps)
  obtain ev s where p: "p = (ev, s)" by (cases p)
  have "subscribed (step st (AuthStateChange ev s)) = subscribed st"
    by (simp add: onAuthStateChange_callback_def)
  with Cons[of "step st (AuthStateChange ev s)"] show ?case
    unfolding p changes_Cons run.simps by simp
qed

lemma run_changes_unsubscribed: "\<not> subscribed st \<Longrightarrow> run st (changes ps) = st"
proof (induction ps)
  case Nil
  show ?case by (simp add: changes_Nil)
next
  case (Cons p ps)
  obtain ev s where p: "p = (ev, s)" by (cases p)
  from Cons.prems have "step st (AuthStateChange ev s) = st" by simp
  with Cons show ?case
    unfolding p changes_Cons run.simps by simp
qed

text \<open>
  C4. The change callback stores the payload of its event as the session and
  touches nothing else: the session afterwards is the payload, whatever it was
  before. So for a subscribed hook a change event leaves exactly its payload as
  the session, and after any sequence of change events the session is the
  payload of the last one.
\<close>

theorem change_event_replaces_session:
  "onAuthStateChange_callback ev s st = st\<lparr>session := s\<rparr>
   \<and> session (onAuthStateChange_callback ev s st) = s
   \<and> (subscribed st \<longrightarrow> step st (AuthStateChange ev s) = st\<lparr>session := s\<rparr>)
   \<and> (subscribed st \<longrightarrow> session (run st (changes (ps @ [(ev, s)]))) = s)"
proof -
  have "session (run st (changes (ps @ [(ev, s)]))) = s" if "subscribed st"
  proof -
    have "subscribed (run st (changes ps))"
      using that by (simp add: run_changes_subscribed)
    then show ?thesis
      by (simp add: changes_append changes_Cons changes_Nil run_append
          onAuthStateChange_callback_def)
  qed
  then show ?thesis
    by (simp add: onAuthStateChange_callback_def)
qed

theorem change_event_replaces_session_witness:
  "subscribed (effect mirror0)
   \<and> session (run (effect mirror0)
        (changes ([(''SIGNED_IN'', Some 1), (''SIGNED_OUT'', None)] @ [(''SIGNED_IN'', Some 2)])))
       = Some 2"
  using change_event_replaces_session
    [of "''SIGNED_IN''" "Some 2" "effect mirror0"
        "[(''SIGNED_IN'', Some 1), (''SIGNED_OUT'', None)]"]
  by (simp add: effect_def)

text \<open>
  C8. After the cleanup of the effect has run, change events write nothing: the
  state after any number of them is the state the cleanup left. In particular,
  when \<open>N\<close> change events came before the teardown, the session after any further
  change events is still the session the \<open>N\<close>-th event left.
\<close>

theorem no_write_after_teardown:
  "run (step st Teardown) (changes ps) = step st Teardown
   \<and> run st (changes qs @ Teardown # changes ps) = run st (changes qs @ [Teardown])
   \<and> session (run st (changes qs @ Teardown # changes ps)) = session (run st (changes qs))"
proof -
  have a: "run (st'\<lparr>subscribed := False\<rparr>) (changes ps) = st'\<lparr>subscribed := False\<rparr>"
    for st' :: "'a mirror"
    by (rule run_changes_unsubscribed) simp
  show ?thesis
    by (simp add: a run_append)
qed

section \<open>Properties of the cookie bridge\<close>

lemma framework_call_quiet: "faults w = [] \<Longrightarrow> framework_call w = (None, w)"
  by (simp add: framework_call_def)

lemma map_of_jar_set: "map_of (jar_set n v j) = (map_of j)(n \<mapsto> v)"
  by (induction j) auto

lemma jar_set_fresh: "n \<notin> fst ` set j \<Longrightarrow> jar_set n v j = j @ [(n, v)]"
  by (induction j) auto

lemma map_of_set_pairs:
  "map_of (set_pairs cs j)
     = map_of j ++ map_of (rev (map (\<lambda>c. (cookie_name c, cookie_value c)) cs))"
proof (induction cs arbitrary: j)
  case Nil
  show ?case by simp
next
  case (Cons c cs)
  show ?case
    by (rule ext) (simp add: Cons map_of_jar_set map_add_def split: option.splits)
qed

lemma map_of_set_triples:
  "map_of (set_triples cs j)
     = map_of j ++ map_of (rev (map (\<lambda>c. (cookie_name c, cookie_value c, cookie_options c)) cs))"
proof (induction cs arbitrary: j)
  case Nil
  show ?case by simp
next
  case (Cons c cs)
  show ?case
    by (rule ext) (simp add: Cons map_of_jar_set map_add_def split: option.splits)
qed

lemma set_triples_distinct:
  "distinct (map fst j @ map cookie_name cs) \<Longrightarrow>
     set_triples cs j = j @ map (\<lambda>c. (cookie_name c, cookie_value c, cookie_options c)) cs"
proof (induction cs arbitrary: j)
  case Nil
  show ?case by simp
next
  case (Cons c cs)
  from Cons.prems have fresh: "cookie_name c \<notin> fst ` set j" by auto
  from Cons.prems have
    "distinct (map fst (j @ [(cookie_name c, cookie_value c, cookie_options c)])
       @ map cookie_name cs)"
    by auto
  from Cons.IH[OF this] show ?case
    by (simp add: jar_set_fresh[OF fresh])
qed

lemma set_triples_append: "set_triples (l @ l') j = set_triples l' (set_triples l j)"
  by (induction l arbitrary: j) simp_all

lemma forEach_req_quiet:
  "faults st = [] \<Longrightarrow>
     forEach (\<lambda>c. req_cookies_set (cookie_name c) (cookie_value c)) cs st
       = (Inr (), st\<lparr>req_cookies := set_pairs cs (req_cookies st)\<rparr>)"
proof (induction cs arbitrary: st)
  case Nil
  show ?case by simp
next
  case (Cons c cs)
  then show ?case
    by (simp add: req_cookies_set_def framework_call_quiet)
qed

lemma forEach_res_quiet:
  "faults st = [] \<Longrightarrow>
     forEach (\<lambda>c. res_cookies_set (cookie_name c) (cookie_value c) (cookie_options c)) cs st
       = (Inr (), st\<lparr>res_cookies := set_triples cs (res_cookies st)\<rparr>)"
proof (induction cs arbitrary: st)
  case Nil
  show ?case by simp
next
  case (Cons c cs)
  then show ?case
    by (simp add: res_cookies_set_def framework_call_quiet)
qed

lemma middleware_setAll_quiet:
  "faults st = [] \<Longrightarrow>
     middleware_setAll cs st
       = (Inr (), st\<lparr>req_cookies := set_pairs cs (req_cookies st),
                     res_cookies := set_triples cs [],
                     res_request_cookies := set_pairs cs (req_cookies st)\<rparr>)"
  by (simp add: middleware_setAll_def forEach_req_quiet NextResponse_next_def
      framework_call_quiet forEach_res_quiet)

lemma trpc_setAll_quiet:
  "faults st = [] \<Longrightarrow>
     trpc_setAll cs st
       = (Inr (), st\<lparr>store_cookies := set_pairs cs (store_cookies st),
                     store_response_cookies := set_triples cs (store_response_cookies st)\<rparr>)"
  unfolding trpc_setAll_def
proof (induction cs arbitrary: st)
  case Nil
  show ?case by simp
next
  case (Cons c cs)
  then show ?case
    by (simp add: cookiesStore_set_def framework_call_quiet)
qed

lemma middleware_getAll_quiet:
  "faults st = [] \<Longrightarrow> middleware_getAll st = (Inr (req_cookies st), st)"
  by (simp add: middleware_getAll_def req_cookies_getAll_def framework_call_quiet)

lemma trpc_getAll_quiet:
  "faults st = [] \<Longrightarrow> trpc_getAll st = (Inr (store_cookies st), st)"
  by (simp add: trpc_getAll_def cookiesStore_getAll_def framework_call_quiet)

text \<open>
  C5. At the start of a request, in a world where no framework call throws,
  \<^verbatim>\<open>getAll()\<close> returns the cookies of the request as they came, at both call sites.
  \<^verbatim>\<open>setAll(cs)\<close> returns normally at both call sites and leaves an outgoing
  response (the \<^verbatim>\<open>res\<close> of the middleware, the response side of the tRPC cookie
  store) that carries, for every name in \<open>cs\<close>, the value and the options of the
  last cookie of that name: the very triples of \<open>cs\<close>, in order, when the names
  are distinct. In the middleware the request headers this response forwards
  are the updated request cookies: those that came, overridden by the names and
  values of \<open>cs\<close>; in the tRPC context later reads of the store see the same.
  For the request cookies \<open>a=1, b=2\<close> and \<^verbatim>\<open>setAll([{c, 3, {path: /}}])\<close>: the
  response carries \<open>c=3\<close> with \<open>path=/\<close> at both call sites, and the request
  the middleware forwards carries \<open>a=1, b=2, c=3\<close>.
\<close>

theorem cookie_bridge_relays_cookies:
  "middleware_getAll (middleware_start ck []) = (Inr ck, middleware_start ck [])
   \<and> trpc_getAll (trpc_start ck []) = (Inr ck, trpc_start ck [])
   \<and> fst (middleware_setAll cs (middleware_start ck [])) = Inr ()
   \<and> res_cookies (snd (middleware_setAll cs (middleware_start ck []))) = set_triples cs []
   \<and> map_of (res_cookies (snd (middleware_setAll cs (middleware_start ck []))))
       = map_of (rev (map (\<lambda>c. (cookie_name c, cookie_value c, cookie_options c)) cs))
   \<and> (distinct (map cookie_name cs) \<longrightarrow>
        res_cookies (snd (middleware_setAll cs (middleware_start ck []))) = map (\<lambda>c. (cookie_name c, cookie_value c, cookie_options c)) cs)
   \<and> res_request_cookies (snd (middleware_setAll cs (middleware_start ck [])))
       = req_cookies (snd (middleware_setAll cs (middleware_start ck [])))
   \<and> map_of (res_request_cookies (snd (middleware_setAll cs (middleware_start ck []))))
       = map_of ck ++ map_of (rev (map (\<lambda>c. (cookie_name c, cookie_value c)) cs))
   \<and> fst (trpc_setAll cs (trpc_start ck [])) = Inr ()
   \<and> store_response_cookies (snd (trpc_setAll cs (trpc_start ck []))) = set_triples cs []
   \<and> map_of (store_response_cookies (snd (trpc_setAll cs (trpc_start ck []))))
       = map_of (rev (map (\<lambda>c. (cookie_name c, cookie_value c, cookie_options c)) cs))
   \<and> (distinct (map cookie_name cs) \<longrightarrow>
        store_response_cookies (snd (trpc_setAll cs (trpc_start ck []))) = map (\<lambda>c. (cookie_name c, cookie_value c, cookie_options c)) cs)
   \<and> map_of (store_cookies (snd (trpc_setAll cs (trpc_start ck []))))
       = map_of ck ++ map_of (rev (map (\<lambda>c. (cookie_name c, cookie_value c)) cs))
   \<and> snd (middleware_setAll [cookie_c] (middleware_start [(''a'', ''1''), (''b'', ''2'')] []))
       = \<lparr>faults = [], req_cookies = [(''a'', ''1''), (''b'', ''2''), (''c'', ''3'')],
          res_cookies = [(''c'', ''3'', [(''path'', ''/'')])],
          res_request_cookies = [(''a'', ''1''), (''b'', ''2''), (''c'', ''3'')]\<rparr>
   \<and> snd (trpc_setAll [cookie_c] (trpc_start [(''a'', ''1''), (''b'', ''2'')] []))
       = \<lparr>faults = [], store_cookies = [(''a'', ''1''), (''b'', ''2''), (''c'', ''3'')],
          store_response_cookies = [(''c'', ''3'', [(''path'', ''/'')])]\<rparr>"
proof -
  have q: "faults (middleware_start ck' []) = []" for ck'
    by (simp add: middleware_start_def)
  have t: "faults (trpc_start ck' []) = []" for ck'
    by (simp add: trpc_start_def)
  have d: "set_triples cs [] = map (\<lambda>c. (cookie_name c, cookie_value c, cookie_options c)) cs"
    if "distinct (map cookie_name cs)"
    using set_triples_distinct[of "[]" cs] that by simp
  show ?thesis
    by (simp add: middleware_getAll_quiet[OF q] trpc_getAll_quiet[OF t]
        middleware_setAll_quiet[OF q] trpc_setAll_quiet[OF t]
        map_of_set_triples map_of_set_pairs d)
      (simp add: middleware_start_def trpc_start_def d)
qed

theorem cookie_bridge_relays_cookies_witness:
  "distinct (map cookie_name [cookie_c, \<lparr>cookie_name = ''d'', cookie_value = ''4'', cookie_options = [(''sameSite'', ''lax'')]\<rparr>])
   \<and> res_cookies (snd (middleware_setAll [cookie_c, \<lparr>cookie_name = ''d'', cookie_value = ''4'', cookie_options = [(''sameSite'', ''lax'')]\<rparr>]
        (middleware_start [(''a'', ''1''), (''b'', ''2'')] [])))
     = [(''c'', ''3'', [(''path'', ''/'')]), (''d'', ''4'', [(''sameSite'', ''lax'')])]
   \<and> store_response_cookies (snd (trpc_setAll [cookie_c, \<lparr>cookie_name = ''d'', cookie_value = ''4'', cookie_options = [(''sameSite'', ''lax'')]\<rparr>]
        (trpc_start [(''a'', ''1''), (''b'', ''2'')] [])))
     = [(''c'', ''3'', [(''path'', ''/'')]), (''d'', ''4'', [(''sameSite'', ''lax'')])]"
  using cookie_bridge_relays_cookies
    [of "[(''a'', ''1''), (''b'', ''2'')]" "[cookie_c, \<lparr>cookie_name = ''d'', cookie_value = ''4'', cookie_options = [(''sameSite'', ''lax'')]\<rparr>]"]
  by simp

lemma bridge_calls_agree:
  "faults mw = [] \<Longrightarrow> faults tr = [] \<Longrightarrow> req_cookies mw = store_cookies tr \<Longrightarrow>
     res_cookies mw = set_triples l [] \<Longrightarrow>
     fst (bridge_calls middleware_getAll middleware_setAll cs mw)
       = fst (bridge_calls trpc_getAll trpc_setAll cs tr)
     \<and> res_cookies (snd (bridge_calls middleware_getAll middleware_setAll cs mw))
         = set_triples (last_setAll l cs) []
     \<and> store_response_cookies (snd (bridge_calls trpc_getAll trpc_setAll cs tr))
         = set_triples (all_setAll cs) (store_response_cookies tr)"
proof (induction cs arbitrary: mw tr l)
  case Nil
  then show ?case by simp
next
  case (Cons c cs)
  show ?case
  proof (cases c)
    case GetAll
    from Cons.IH[OF Cons.prems] show ?thesis
      by (auto simp add: GetAll middleware_getAll_quiet[OF Cons.prems(1)]
          trpc_getAll_quiet[OF Cons.prems(2)] Cons.prems(3) split: prod.splits sum.splits)
  next
    case (SetAll l')
    let ?mw = "mw\<lparr>req_cookies := set_pairs l' (req_cookies mw),
                  res_cookies := set_triples l' [],
                  res_request_cookies := set_pairs l' (req_cookies mw)\<rparr>"
    let ?tr = "tr\<lparr>store_cookies := set_pairs l' (store_cookies tr),
                  store_response_cookies := set_triples l' (store_response_cookies tr)\<rparr>"
    have "faults ?mw = []" "faults ?tr = []" "req_cookies ?mw = store_cookies ?tr"
      "res_cookies ?mw = set_triples l' []"
      using Cons.prems by simp_all
    from Cons.IH[OF this] show ?thesis
      by (simp add: SetAll middleware_setAll_quiet[OF Cons.prems(1)]
          trpc_setAll_quiet[OF Cons.prems(2)] set_triples_append)
  qed
qed

lemma count_setAll_zero: "count_setAll cs = 0 \<Longrightarrow> all_setAll cs = [] \<and> last_setAll l cs = l"
  by (induction cs rule: count_setAll.induct) simp_all

lemma count_setAll_one: "count_setAll cs \<le> 1 \<Longrightarrow> last_setAll [] cs = all_setAll cs"
proof (induction cs rule: count_setAll.induct)
  case 1
  show ?case by simp
next
  case (2 cs)
  then show ?case by simp
next
  case (3 l cs)
  then have "count_setAll cs = 0" by simp
  from count_setAll_zero[OF this, of l] show ?case by simp
qed

text \<open>
  C6, as amended. For every sequence of \<^verbatim>\<open>getAll\<close> and \<^verbatim>\<open>setAll\<close> calls on a
  request with the same cookies, in a world where no framework call throws, the
  two call sites return the same reads, and a single \<^verbatim>\<open>setAll(l)\<close> sets the
  triples of \<open>l\<close>, in order, on the response side of either. They agree on the
  cookies of the outgoing response when the sequence has at most one \<^verbatim>\<open>setAll\<close>.
  Beyond that they differ by construction: the middleware makes a new response in
  every \<^verbatim>\<open>setAll\<close>, so its response carries the cookies of the last \<^verbatim>\<open>setAll\<close>
  only, while the store of the tRPC context keeps those of all of them.
\<close>

theorem call_sites_agree_up_to_response_reset:
  "fst (bridge_calls middleware_getAll middleware_setAll cs (middleware_start ck []))
     = fst (bridge_calls trpc_getAll trpc_setAll cs (trpc_start ck []))
   \<and> res_cookies (snd (bridge_calls middleware_getAll middleware_setAll cs
        (middleware_start ck []))) = set_triples (last_setAll [] cs) []
   \<and> store_response_cookies (snd (bridge_calls trpc_getAll trpc_setAll cs
        (trpc_start ck []))) = set_triples (all_setAll cs) []
   \<and> (count_setAll cs \<le> 1 \<longrightarrow>
        res_cookies (snd (bridge_calls middleware_getAll middleware_setAll cs
          (middleware_start ck [])))
        = store_response_cookies (snd (bridge_calls trpc_getAll trpc_setAll cs
          (trpc_start ck []))))
   \<and> (faults mw = [] \<longrightarrow> res_cookies (snd (middleware_setAll l mw)) = set_triples l [])
   \<and> (faults tr = [] \<longrightarrow>
        store_response_cookies (snd (trpc_setAll l tr))
          = set_triples l (store_response_cookies tr))"
proof -
  have "faults (middleware_start ck []) = []" "faults (trpc_start ck []) = []"
    "req_cookies (middleware_start ck []) = store_cookies (trpc_start ck [])"
    "res_cookies (middleware_start ck []) = set_triples [] []"
    by (simp_all add: middleware_start_def trpc_start_def)
  from bridge_calls_agree[OF this, of cs] show ?thesis
    by (simp add: trpc_start_def count_setAll_one middleware_setAll_quiet trpc_setAll_quiet)
qed

theorem call_sites_agree_up_to_response_reset_witness:
  "count_setAll [GetAll, SetAll [cookie_c], GetAll] \<le> 1
   \<and> res_cookies (snd (bridge_calls middleware_getAll middleware_setAll
        [GetAll, SetAll [cookie_c], GetAll] (middleware_start [(''a'', ''1'')] [])))
     = store_response_cookies (snd (bridge_calls trpc_getAll trpc_setAll
        [GetAll, SetAll [cookie_c], GetAll] (trpc_start [(''a'', ''1'')] [])))
   \<and> faults (middleware_start [(''a'', ''1'')] []) = []
   \<and> res_cookies (snd (middleware_setAll [cookie_c] (middleware_start [(''a'', ''1'')] [])))
     = set_triples [cookie_c] []"
  using call_sites_agree_up_to_response_reset
    [of "[GetAll, SetAll [cookie_c], GetAll]" "[(''a'', ''1'')]"
        "middleware_start [(''a'', ''1'')] []" "[cookie_c]" "trpc_start [(''a'', ''1'')] []"]
  by (simp add: middleware_start_def trpc_start_def
      del: bridge_calls.simps set_triples.simps)

text \<open>
  C6 as stated fails: after \<^verbatim>\<open>setAll([a])\<close> and then \<^verbatim>\<open>setAll([b])\<close> the response of
  the middleware carries \<open>b\<close> alone, the tRPC store carries \<open>a\<close> and \<open>b\<close>.
\<close>

theorem call_sites_differ_counterexample:
  "res_cookies (snd (bridge_calls middleware_getAll middleware_setAll
      [SetAll [\<lparr>cookie_name = ''a'', cookie_value = ''1'', cookie_options = [(''path'', ''/'')]\<rparr>],
       SetAll [\<lparr>cookie_name = ''b'', cookie_value = ''2'', cookie_options = [(''path'', ''/'')]\<rparr>]]
      (middleware_start [] [])))
     = [(''b'', ''2'', [(''path'', ''/'')])]
   \<and> store_response_cookies (snd (bridge_calls trpc_getAll trpc_setAll
      [SetAll [\<lparr>cookie_name = ''a'', cookie_value = ''1'', cookie_options = [(''path'', ''/'')]\<rparr>],
       SetAll [\<lparr>cookie_name = ''b'', cookie_value = ''2'', cookie_options = [(''path'', ''/'')]\<rparr>]]
      (trpc_start [] [])))
     = [(''a'', ''1'', [(''path'', ''/'')]), (''b'', ''2'', [(''path'', ''/'')])]
   \<and> res_cookies (snd (bridge_calls middleware_getAll middleware_setAll
      [SetAll [\<lparr>cookie_name = ''a'', cookie_value = ''1'', cookie_options = [(''path'', ''/'')]\<rparr>],
       SetAll [\<lparr>cookie_name = ''b'', cookie_value = ''2'', cookie_options = [(''path'', ''/'')]\<rparr>]]
      (middleware_start [] [])))
     \<noteq> store_response_cookies (snd (bridge_calls trpc_getAll trpc_setAll
      [SetAll [\<lparr>cookie_name = ''a'', cookie_value = ''1'', cookie_options = [(''path'', ''/'')]\<rparr>],
       SetAll [\<lparr>cookie_name = ''b'', cookie_value = ''2'', cookie_options = [(''path'', ''/'')]\<rparr>]]
      (trpc_start [] [])))"
  by (simp add: middleware_start_def trpc_start_def middleware_setAll_def trpc_setAll_def
      req_cookies_set_def res_cookies_set_def NextResponse_next_def cookiesStore_set_def
      framework_call_def)

lemma framework_call_Some:
  "faults w = Some e # fs \<Longrightarrow> framework_call w = (Some e, w\<lparr>faults := fs\<rparr>)"
  by (simp add: framework_call_def)

lemma framework_call_None:
  "faults w = None # fs \<Longrightarrow> framework_call w = (None, w\<lparr>faults := fs\<rparr>)"
  by (simp add: framework_call_def)

lemma forEach_throws:
  fixes f :: "'x \<Rightarrow> 'a world_scheme \<Rightarrow> (error + unit) \<times> 'a world_scheme"
  assumes f: "\<And>x st. f x st =
      (case framework_call st of
         (Some e, st') \<Rightarrow> (Inl e, st')
       | (None, st') \<Rightarrow> (Inr (), g x st'))"
    and g: "\<And>x st. faults (g x st) = faults st"
  shows "faults st = replicate k None @ Some e # fs \<Longrightarrow> k < length xs \<Longrightarrow>
    fst (forEach f xs st) = Inl e \<and> faults (snd (forEach f xs st)) = fs"
proof (induction xs arbitrary: st k)
  case Nil
  then show ?case by simp
next
  case (Cons x xs)
  show ?case
  proof (cases k)
    case 0
    with Cons.prems have "faults st = Some e # fs" by simp
    then show ?thesis
      by (simp add: f framework_call_Some)
  next
    case (Suc k')
    with Cons.prems have fl: "faults st = None # replicate k' None @ Some e # fs"
      and k': "k' < length xs"
      by simp_all
    let ?st = "g x (st\<lparr>faults := replicate k' None @ Some e # fs\<rparr>)"
    have "faults ?st = replicate k' None @ Some e # fs"
      by (simp add: g)
    from Cons.IH[OF this k'] show ?thesis
      by (simp add: f framework_call_None[OF fl])
  qed
qed

lemma forEach_passes:
  fixes f :: "'x \<Rightarrow> 'a world_scheme \<Rightarrow> (error + unit) \<times> 'a world_scheme"
  assumes f: "\<And>x st. f x st =
      (case framework_call st of
         (Some e, st') \<Rightarrow> (Inl e, st')
       | (None, st') \<Rightarrow> (Inr (), g x st'))"
    and g: "\<And>x st. faults (g x st) = faults st"
  shows "faults st = replicate (length xs) None @ fs \<Longrightarrow>
    fst (forEach f xs st) = Inr () \<and> faults (snd (forEach f xs st)) = fs"
proof (induction xs arbitrary: st)
  case Nil
  then show ?case by simp
next
  case (Cons x xs)
  then have fl: "faults st = None # replicate (length xs) None @ fs" by simp
  let ?st = "g x (st\<lparr>faults := replicate (length xs) None @ fs\<rparr>)"
  have "faults ?st = replicate (length xs) None @ fs"
    by (simp add: g)
  from Cons.IH[OF this] show ?case
    by (simp add: f framework_call_None[OF fl])
qed

lemma req_cookies_set_shape:
  "req_cookies_set (cookie_name c) (cookie_value c) st =
     (case framework_call st of
        (Some e, st') \<Rightarrow> (Inl e, st')
      | (None, st') \<Rightarrow>
          (Inr (), (\<lambda>c s. s\<lparr>req_cookies := jar_set (cookie_name c) (cookie_value c) (req_cookies s)\<rparr>) c st'))"
  by (simp add: req_cookies_set_def)

lemma res_cookies_set_shape:
  "res_cookies_set (cookie_name c) (cookie_value c) (cookie_options c) st =
     (case framework_call st of
        (Some e, st') \<Rightarrow> (Inl e, st')
      | (None, st') \<Rightarrow>
          (Inr (), (\<lambda>c s. s\<lparr>res_cookies :=
             jar_set (cookie_name c) (cookie_value c, cookie_options c) (res_cookies s)\<rparr>) c st'))"
  by (simp add: res_cookies_set_def)

lemma cookiesStore_set_shape:
  "cookiesStore_set (cookie_name c) (cookie_value c) (cookie_options c) st =
     (case framework_call st of
        (Some e, st') \<Rightarrow> (Inl e, st')
      | (None, st') \<Rightarrow>
          (Inr (), (\<lambda>c s. s\<lparr>store_cookies := jar_set (cookie_name c) (cookie_value c) (store_cookies s),
             store_response_cookies :=
               jar_set (cookie_name c) (cookie_value c, cookie_options c) (store_response_cookies s)\<rparr>) c st'))"
  by (simp add: cookiesStore_set_def)

lemma trpc_setAll_throws:
  assumes "faults tr = replicate k None @ Some e # fs" and "k < length cs"
  shows "fst (trpc_setAll cs tr) = Inl e \<and> faults (snd (trpc_setAll cs tr)) = fs"
  unfolding trpc_setAll_def
  by (rule forEach_throws[OF cookiesStore_set_shape _ assms]) simp

lemma middleware_setAll_throws:
  assumes fl: "faults mw = replicate k None @ Some e # fs" and k: "k \<le> 2 * length cs"
  shows "fst (middleware_setAll cs mw) = Inl e \<and> faults (snd (middleware_setAll cs mw)) = fs"
proof -
  let ?f = "\<lambda>c. req_cookies_set (cookie_name c) (cookie_value c)"
  let ?h = "\<lambda>c. res_cookies_set (cookie_name c) (cookie_value c) (cookie_options c)"
  obtain r1 st1 where s1: "forEach ?f cs mw = (r1, st1)" by (cases "forEach ?f cs mw")
  show ?thesis
  proof (cases "k < length cs")
    case True
    have "fst (forEach ?f cs mw) = Inl e \<and> faults (snd (forEach ?f cs mw)) = fs"
      by (rule forEach_throws[OF req_cookies_set_shape _ fl True]) simp
    with s1 show ?thesis
      by (simp add: middleware_setAll_def)
  next
    case False
    then have "replicate k (None :: error option)
        = replicate (length cs) None @ replicate (k - length cs) None"
      by (simp add: replicate_add[symmetric])
    with fl have fl1: "faults mw
        = replicate (length cs) None @ (replicate (k - length cs) None @ Some e # fs)"
      by simp
    have "fst (forEach ?f cs mw) = Inr ()
        \<and> faults (snd (forEach ?f cs mw)) = replicate (k - length cs) None @ Some e # fs"
      by (rule forEach_passes[OF req_cookies_set_shape _ fl1]) simp
    with s1 have r1: "r1 = Inr ()"
      and f1: "faults st1 = replicate (k - length cs) None @ Some e # fs"
      by simp_all
    show ?thesis
    proof (cases "k - length cs")
      case 0
      with f1 have "faults st1 = Some e # fs" by simp
      then show ?thesis
        by (simp add: middleware_setAll_def s1 r1 NextResponse_next_def framework_call_Some)
    next
      case (Suc j)
      with f1 have f1': "faults st1 = None # replicate j None @ Some e # fs" by simp
      let ?st2 = "st1\<lparr>faults := replicate j None @ Some e # fs, res_cookies := [],
                      res_request_cookies := req_cookies st1\<rparr>"
      have f2: "faults ?st2 = replicate j None @ Some e # fs" by simp
      from Suc k False have j: "j < length cs" by simp
      have "fst (forEach ?h cs ?st2) = Inl e \<and> faults (snd (forEach ?h cs ?st2)) = fs"
        by (rule forEach_throws[OF res_cookies_set_shape _ f2 j]) simp
      then show ?thesis
        by (simp add: middleware_setAll_def s1 r1 NextResponse_next_def
            framework_call_None[OF f1'])
    qed
  qed
qed

text \<open>
  C9, as amended. Failures inside a call are passed on as they are: a constructor
  that throws makes the first render of the provider and both server call sites
  fail with that very error; a framework call that throws inside \<^verbatim>\<open>getAll\<close> or
  \<^verbatim>\<open>setAll\<close> makes the callback fail with that very error, and no framework call
  is made after it (so none is repeated). The session mirror does not pass the
  failures of \<^verbatim>\<open>getSession()\<close> to its caller: a rejection finds no handler and
  leaves the cells as they were, an error reported in the fulfilled result is
  not looked at, a render of the hook under a provider returns normally, and
  \<^verbatim>\<open>getSession()\<close> is not called again.
\<close>

theorem failures_propagate_except_from_getSession:
  "(chk (NEXT_PUBLIC_SUPABASE_URL env) (NEXT_PUBLIC_SUPABASE_ANON_KEY env) = Some e \<longrightarrow>
      AuthProvider chk env None made = Inl e
      \<and> middleware_supabase chk env made = Inl e
      \<and> trpc_supabase chk env made = Inl e)
   \<and> (faults mw = Some e # fs \<longrightarrow> middleware_getAll mw = (Inl e, mw\<lparr>faults := fs\<rparr>))
   \<and> (faults tr = Some e # fs \<longrightarrow> trpc_getAll tr = (Inl e, tr\<lparr>faults := fs\<rparr>))
   \<and> (faults mw = replicate k None @ Some e # fs \<and> k \<le> 2 * length cs \<longrightarrow>
        fst (middleware_setAll cs mw) = Inl e \<and> faults (snd (middleware_setAll cs mw)) = fs)
   \<and> (faults tr = replicate k None @ Some e # fs \<and> k < length cs \<longrightarrow>
        fst (trpc_setAll cs tr) = Inl e \<and> faults (snd (trpc_setAll cs tr)) = fs)
   \<and> (fetch_pending st \<longrightarrow>
        step st (Rejected e) = st\<lparr>fetch_pending := False, unhandled := unhandled st @ [e]\<rparr>)
   \<and> step st (Fulfilled r) = step st (Fulfilled (r\<lparr>auth_error := None\<rparr>))
   \<and> getSession_calls (run st evs) = getSession_calls st
   \<and> useSessionContext (Some v) st
       = Inr \<lparr>ret_session = session st, ret_isLoading = isLoading st,
              ret_supabaseClient = supabase v\<rparr>"
proof -
  have a: "AuthProvider chk env None made = Inl e
      \<and> middleware_supabase chk env made = Inl e
      \<and> trpc_supabase chk env made = Inl e"
    if "chk (NEXT_PUBLIC_SUPABASE_URL env) (NEXT_PUBLIC_SUPABASE_ANON_KEY env) = Some e"
    using that
    by (simp add: AuthProvider_def useState_lazy_def createBrowserClient_def
        createServerClient_def construct_def middleware_supabase_def trpc_supabase_def)
  have b: "middleware_getAll mw = (Inl e, mw\<lparr>faults := fs\<rparr>)" if "faults mw = Some e # fs"
    by (simp add: middleware_getAll_def req_cookies_getAll_def framework_call_Some[OF that])
  have c: "trpc_getAll tr = (Inl e, tr\<lparr>faults := fs\<rparr>)" if "faults tr = Some e # fs"
    by (simp add: trpc_getAll_def cookiesStore_getAll_def framework_call_Some[OF that])
  have d: "step st (Fulfilled r) = step st (Fulfilled (r\<lparr>auth_error := None\<rparr>))"
    by (simp add: getSession_then_def)
  have f: "useSessionContext (Some v) st
       = Inr \<lparr>ret_session = session st, ret_isLoading = isLoading st,
              ret_supabaseClient = supabase v\<rparr>"
    by (simp add: useSessionContext_def useSupabaseClient_def)
  from a b c d f show ?thesis
    using middleware_setAll_throws[of mw k e fs cs] trpc_setAll_throws[of tr k e fs cs]
    by (simp add: run_getSession_calls)
qed

theorem failures_propagate_except_from_getSession_witness:
  "AuthProvider (\<lambda>url key. Some (Error ''network failure'')) env0 None []
     = Inl (Error ''network failure'')
   \<and> fst (middleware_getAll (middleware_start [] [Some (Error ''network failure'')]))
       = Inl (Error ''network failure'')
   \<and> fst (middleware_setAll [cookie_c] (middleware_start [] [Some (Error ''network failure'')]))
       = Inl (Error ''network failure'')
   \<and> faults (snd (middleware_setAll [cookie_c]
        (middleware_start [] [Some (Error ''network failure'')]))) = []
   \<and> fst (trpc_setAll [cookie_c] (trpc_start [] [Some (Error ''network failure'')]))
       = Inl (Error ''network failure'')
   \<and> unhandled (step (effect mirror0) (Rejected (Error ''network failure'')))
       = [Error ''network failure'']"
  using failures_propagate_except_from_getSession
    [where chk = "\<lambda>url key. Some (Error ''network failure'')" and env = env0
       and e = "Error ''network failure''" and made = "[]"
       and mw = "middleware_start [] [Some (Error ''network failure'')]" and fs = "[]"
       and tr = "trpc_start [] [Some (Error ''network failure'')]" and k = 0
       and cs = "[cookie_c]" and st = "effect mirror0"
       and r = "\<lparr>data_session = None, auth_error = None\<rparr>" and evs = "[]"
       and v = "\<lparr>supabase = client0\<rparr>"]
  by (simp add: middleware_start_def trpc_start_def effect_def)

text \<open>
  C9 as stated fails for the session mirror: after the promise of
  \<^verbatim>\<open>getSession()\<close> is rejected, or is fulfilled with an error in its result, the
  caller of the hook gets an ordinary return value that carries no error; the
  second case cannot be told from a clean answer "no session".
\<close>

theorem getSession_failure_not_delivered_counterexample:
  "useSessionContext (Some \<lparr>supabase = client0\<rparr>)
      (run (effect mirror0) [Rejected (Error ''network failure'')])
     = Inr \<lparr>ret_session = None, ret_isLoading = True, ret_supabaseClient = client0\<rparr>
   \<and> useSessionContext (Some \<lparr>supabase = client0\<rparr>)
      (run (effect mirror0)
        [Fulfilled \<lparr>data_session = None, auth_error = Some (Error ''invalid token'')\<rparr>])
     = Inr \<lparr>ret_session = None, ret_isLoading = False, ret_supabaseClient = client0\<rparr>
   \<and> run (effect mirror0)
        [Fulfilled \<lparr>data_session = None, auth_error = Some (Error ''invalid token'')\<rparr>]
     = run (effect mirror0) [Fulfilled \<lparr>data_session = None, auth_error = None\<rparr>]"
  by (simp add: useSessionContext_def useSupabaseClient_def effect_def getSession_then_def)

end
